theory Spec2Isabelle
  imports Complex_Main
begin

section \<open>Strings\<close>

text \<open>
  The dashboard's heuristics are written with the string methods of JavaScript:
  \<^verbatim>\<open>toLowerCase\<close>, \<^verbatim>\<open>includes\<close>, \<^verbatim>\<open>startsWith\<close>, \<^verbatim>\<open>endsWith\<close>, \<^verbatim>\<open>RegExp.test\<close> and
  \<^verbatim>\<open>String.match\<close> with a global pattern. A string is modelled as a \<^typ>\<open>string\<close> whose
  characters are the code points U+0000 to U+00FF; all keyword tables of the source are
  ASCII.
\<close>

definition isUpperCase :: "char \<Rightarrow> bool" where
  \<comment> \<open>the code points below U+0100 that \<^verbatim>\<open>toLowerCase\<close> changes: A-Z, and U+00C0 to U+00DE
      without the multiplication sign U+00D7\<close>
  "isUpperCase c = (let n = (of_char c :: nat) in
     (65 \<le> n \<and> n \<le> 90) \<or> (192 \<le> n \<and> n \<le> 222 \<and> n \<noteq> 215))"

definition toLowerChar :: "char \<Rightarrow> char" where
  \<comment> \<open>the lower-case letter lies 32 code points higher: bit 5 is set\<close>
  "toLowerChar c = (if isUpperCase c
     then Char (digit0 c) (digit1 c) (digit2 c) (digit3 c) (digit4 c) True (digit6 c) (digit7 c)
     else c)"

definition toLowerCase :: "string \<Rightarrow> string" where
  "toLowerCase s = map toLowerChar s"

fun startsWith :: "string \<Rightarrow> string \<Rightarrow> bool" where
  "startsWith s [] = True"
| "startsWith [] (p # ps) = False"
| "startsWith (c # cs) (p # ps) = (c = p \<and> startsWith cs ps)"

definition endsWith :: "string \<Rightarrow> string \<Rightarrow> bool" where
  "endsWith s p = startsWith (rev s) (rev p)"

fun str_includes :: "string \<Rightarrow> string \<Rightarrow> bool" where
  "str_includes [] t = (t = [])"
| "str_includes (c # cs) t = (startsWith (c # cs) t \<or> str_includes cs t)"

text \<open>
  The regular expressions of the source that are built from literal characters and
  character classes only: an alternative is a list of classes, each class the string of
  the characters it admits, and \<^verbatim>\<open>test\<close> succeeds when some alternative matches at some
  position of the subject.
\<close>

type_synonym char_class = string
type_synonym alternative = "char_class list"

fun matchesAt :: "alternative \<Rightarrow> string \<Rightarrow> bool" where
  "matchesAt [] s = True"
| "matchesAt (k # ks) [] = False"
| "matchesAt (k # ks) (c # cs) = (c \<in> set k \<and> matchesAt ks cs)"

fun matchesWithin :: "alternative \<Rightarrow> string \<Rightarrow> bool" where
  "matchesWithin a [] = matchesAt a []"
| "matchesWithin a (c # cs) = (matchesAt a (c # cs) \<or> matchesWithin a cs)"

definition regex_test :: "alternative list \<Rightarrow> string \<Rightarrow> bool" where
  "regex_test alts s = list_ex (\<lambda>a. matchesWithin a s) alts"

section \<open>The URL checker (providers.tsx)\<close>

datatype UrlStatus = UrlSafe | UrlSuspicious | UrlMalicious

datatype HttpsStatus = Valid | Invalid | Missing

record UrlDetails =
  domainAge :: string
  httpsStatus :: HttpsStatus
  redirectCount :: int
  maliciousPatterns :: "string list"
  reputationScore :: int
  category :: string

record UrlCheckResult =
  url :: string
  status :: UrlStatus
  confidenceScore :: int
  details :: UrlDetails
  recommendations :: "string list"

text \<open>
  Two services of the platform are parameters of the model. \<^verbatim>\<open>new URL(s)\<close> is a function
  that yields the \<^verbatim>\<open>hostname\<close> of the parsed URL, or \<open>None\<close> where the constructor
  throws. \<^verbatim>\<open>Math.random()\<close> is the sequence of the numbers it returns, each in the
  interval from 0 (included) to 1 (excluded); a call of the checker consumes them from
  index 0 on.

  The products \<^verbatim>\<open>Math.random() * 5\<close> and \<^verbatim>\<open>Math.random() * 3\<close> are taken in the real
  numbers here. The source multiplies doubles and rounds the product before
  \<^verbatim>\<open>Math.floor\<close>, so for some draws its floor is one more than the model's: the double
  nearest to 0.6 gives 3 there and 2 here. The properties below use of these floors only
  that they lie from 0 to 4, which holds of both, and the values at the draws 0 and 3/4,
  where both agree.
\<close>

type_synonym url_parser = "string \<Rightarrow> string option"
type_synonym random_source = "nat \<Rightarrow> real"

definition withScheme :: "string \<Rightarrow> string" where
  \<comment> \<open>the scheme-prefixing statement, which \<^verbatim>\<open>validateUrl\<close> and \<^verbatim>\<open>analyzeUrl\<close> both contain\<close>
  "withScheme u = (if \<not> startsWith u ''http://'' \<and> \<not> startsWith u ''https://''
                   then ''https://'' @ u else u)"

definition validateUrl :: "url_parser \<Rightarrow> string \<Rightarrow> bool" where
  "validateUrl parse u =
     (if u = [] then False
      else (case parse (withScheme u) of Some h \<Rightarrow> True | None \<Rightarrow> False))"

definition knownLegitDomains :: "string list" where
  "knownLegitDomains = [''google.com'', ''amazon.com'', ''facebook.com'', ''microsoft.com'',
     ''apple.com'', ''github.com'', ''dropbox.com'']"

definition typosquattingRegex :: "alternative list" where
  \<comment> \<open>\<^verbatim>\<open>/g[o0][o0]gle|amaz[o0]n|faceb[o0][o0]k|paypa[l1]|micr[o0]s[o0]ft|app[l1]e/\<close>\<close>
  "typosquattingRegex =
    [[''g'', ''o0'', ''o0'', ''g'', ''l'', ''e''],
     [''a'', ''m'', ''a'', ''z'', ''o0'', ''n''],
     [''f'', ''a'', ''c'', ''e'', ''b'', ''o0'', ''o0'', ''k''],
     [''p'', ''a'', ''y'', ''p'', ''a'', ''l1''],
     [''m'', ''i'', ''c'', ''r'', ''o0'', ''s'', ''o0'', ''f'', ''t''],
     [''a'', ''p'', ''p'', ''l1'', ''e'']]"

definition hasTyposquatting :: "string \<Rightarrow> bool" where
  "hasTyposquatting domain = regex_test typosquattingRegex domain"

definition isKnownPhishingPattern :: "string \<Rightarrow> bool" where
  "isKnownPhishingPattern domain =
     (str_includes domain ''secure-verify'' \<or> str_includes domain ''account-update''
      \<or> str_includes domain ''login-confirm'')"

definition hasSuspiciousPath :: "string \<Rightarrow> bool" where
  "hasSuspiciousPath u =
     (str_includes u ''/verify'' \<or> str_includes u ''/signin'' \<or> str_includes u ''/security'')"

definition isLegitDomain :: "string \<Rightarrow> bool" where
  "isLegitDomain domain =
     list_ex (\<lambda>d. domain = d \<or> endsWith domain (''.'' @ d)) knownLegitDomains"

text \<open>
  The three variables that the rule chain of \<^verbatim>\<open>analyzeUrl\<close> assigns, and the number of
  random numbers the chain has drawn.
\<close>

record url_verdict =
  v_status :: UrlStatus
  v_confidenceScore :: int
  v_maliciousPatterns :: "string list"
  v_drawn :: nat

definition initialVerdict :: url_verdict where
  "initialVerdict = \<lparr>v_status = UrlSafe, v_confidenceScore = 90, v_maliciousPatterns = [],
     v_drawn = 0\<rparr>"

definition ruleChain :: "random_source \<Rightarrow> string \<Rightarrow> string \<Rightarrow> url_verdict \<Rightarrow> url_verdict" where
  \<comment> \<open>the \<^verbatim>\<open>if\<close> / \<^verbatim>\<open>else if\<close> chain; \<^verbatim>\<open>&&\<close> draws a random number only when the path is
      suspicious\<close>
  "ruleChain rnd u domain v =
     (if isLegitDomain domain then
        v\<lparr>v_status := UrlSafe, v_confidenceScore := \<lfloor>rnd 0 * 5\<rfloor> + 95, v_drawn := 1\<rparr>
      else if isKnownPhishingPattern domain then
        v\<lparr>v_status := UrlMalicious, v_confidenceScore := 95,
          v_maliciousPatterns := v_maliciousPatterns v @ [''Known phishing domain pattern'']\<rparr>
      else if hasTyposquatting domain then
        v\<lparr>v_status := UrlMalicious, v_confidenceScore := 92,
          v_maliciousPatterns := v_maliciousPatterns v
            @ [''Potential typosquatting attack (brand impersonation)'']\<rparr>
      else if hasSuspiciousPath u \<and> rnd 0 > 1 / 2 then
        v\<lparr>v_status := UrlSuspicious, v_confidenceScore := 75,
          v_maliciousPatterns := v_maliciousPatterns v @ [''Suspicious URL path pattern''],
          v_drawn := 1\<rparr>
      else if str_includes domain ''-'' \<or> str_includes domain ''secure''
              \<or> str_includes domain ''login'' then
        v\<lparr>v_status := UrlSuspicious, v_confidenceScore := 68,
          v_maliciousPatterns := v_maliciousPatterns v
            @ [''Domain contains suspicious keywords''],
          v_drawn := (if hasSuspiciousPath u then 1 else 0)\<rparr>
      else v\<lparr>v_drawn := (if hasSuspiciousPath u then 1 else 0)\<rparr>)"

text \<open>
  The branches of the chain as a table, in the order of the source: the condition of each
  branch and the status that it assigns.
\<close>

definition urlBranches :: "random_source \<Rightarrow> string \<Rightarrow> string \<Rightarrow> (bool \<times> UrlStatus) list" where
  "urlBranches rnd u domain =
     [(isLegitDomain domain, UrlSafe),
      (isKnownPhishingPattern domain, UrlMalicious),
      (hasTyposquatting domain, UrlMalicious),
      (hasSuspiciousPath u \<and> rnd 0 > 1 / 2, UrlSuspicious),
      (str_includes domain ''-'' \<or> str_includes domain ''secure''
         \<or> str_includes domain ''login'', UrlSuspicious)]"

definition buildResult :: "random_source \<Rightarrow> string \<Rightarrow> url_verdict \<Rightarrow> UrlCheckResult" where
  "buildResult rnd u v =
     \<lparr>url = u,
      status = v_status v,
      confidenceScore = v_confidenceScore v,
      details = \<lparr>
        domainAge = (if v_status v = UrlSafe then ''3+ years'' else ''< 30 days''),
        httpsStatus = (if startsWith u ''https://'' then Valid else Missing),
        redirectCount = \<lfloor>rnd (v_drawn v) * 3\<rfloor>,
        maliciousPatterns = v_maliciousPatterns v,
        reputationScore = (if v_status v = UrlSafe then 85
                           else if v_status v = UrlSuspicious then 45 else 15),
        category = (if v_status v = UrlSafe then ''Business/E-commerce''
                    else ''Uncategorized'')\<rparr>,
      recommendations =
        [if v_status v = UrlMalicious then
           ''Do not visit this website. It has been identified as potentially harmful.''
         else if v_status v = UrlSuspicious then
           ''Exercise caution when visiting this website. Do not enter sensitive information.''
         else ''This website appears to be safe, but always be cautious when entering sensitive information.'']\<rparr>"

text \<open>
  What one call of \<^verbatim>\<open>analyzeUrl\<close> does to the form: it sets the validation error of the
  \<^verbatim>\<open>url\<close> field and returns, or an exception inside the \<^verbatim>\<open>try\<close> block is caught and
  logged, or it stores a result with \<^verbatim>\<open>setCheckResult\<close>. The pause of 1500 ms before
  the result is stored changes none of its fields and is left out.
\<close>

datatype url_outcome =
    ValidationError string
  | ErrorLogged
  | Checked UrlCheckResult

definition analyzeUrl :: "url_parser \<Rightarrow> random_source \<Rightarrow> string \<Rightarrow> url_outcome" where
  "analyzeUrl parse rnd input =
     (if \<not> validateUrl parse input then ValidationError ''Please enter a valid URL''
      else
        let u = withScheme input in
        (case parse u of
           None \<Rightarrow> ErrorLogged
         | Some host \<Rightarrow>
             Checked (buildResult rnd u (ruleChain rnd u (toLowerCase host) initialVerdict))))"

text \<open>
  The hostnames that the URL Standard's parser yields on the inputs of the concrete
  instances below. \<^verbatim>\<open>new URL("https://not a url")\<close> throws, since a space is a forbidden
  host code point; the table is consulted at no other input.
\<close>

definition sampleHostnames :: url_parser where
  "sampleHostnames =
     [''https://google.com'' \<mapsto> ''google.com'',
      ''https://mail.google.com'' \<mapsto> ''mail.google.com'',
      ''https://g00gle.com'' \<mapsto> ''g00gle.com'',
      ''https://secure-verify.com'' \<mapsto> ''secure-verify.com'',
      ''https://my-site.com'' \<mapsto> ''my-site.com'',
      ''https://example.com/verify'' \<mapsto> ''example.com'']"

definition mentions :: "string \<Rightarrow> string list \<Rightarrow> bool" where
  \<comment> \<open>some entry of the list contains the word\<close>
  "mentions w xs = list_ex (\<lambda>x. str_includes x w) xs"

text \<open>Two random sources for the concrete instances: every draw 0, every draw 3/4.\<close>

definition lowDraws :: random_source where
  "lowDraws = (\<lambda>n. 0)"

definition highDraws :: random_source where
  "highDraws = (\<lambda>n. 3 / 4)"

text \<open>The verdict and the confidence that an outcome carries, if it carries a result.\<close>

definition outcomeStatus :: "url_outcome \<Rightarrow> UrlStatus option" where
  "outcomeStatus out = (case out of Checked r \<Rightarrow> Some (status r) | _ \<Rightarrow> None)"

definition outcomeConfidence :: "url_outcome \<Rightarrow> int option" where
  "outcomeConfidence out = (case out of Checked r \<Rightarrow> Some (confidenceScore r) | _ \<Rightarrow> None)"

section \<open>The email form (user-nav.tsx)\<close>

datatype RiskLevel = Safe | Suspicious | Phishing

record FormValues =
  sender :: string
  subject :: string
  content :: string

record SuspiciousLink =
  link_url :: string
  reason :: string

text \<open>
  The local variables of \<^verbatim>\<open>generateMockAnalysisResult\<close> that its rules assign; the result
  object has them and three more fields.
\<close>

record scan_state =
  riskLevel :: RiskLevel
  indicators :: "string list"
  suspiciousLinks :: "SuspiciousLink list"

record AnalysisResult = scan_state +
  confidence :: int
  analysis :: string
  recommendedAction :: string

subsection \<open>The links of the content\<close>

definition isWhiteSpace :: "char \<Rightarrow> bool" where
  \<comment> \<open>the class \<^verbatim>\<open>\s\<close> below U+0100: tab, line feed, vertical tab, form feed, carriage
      return, space, no-break space\<close>
  "isWhiteSpace c =
     (c \<in> set [CHR 0x09, CHR 0x0A, CHR 0x0B, CHR 0x0C, CHR 0x0D, CHR 0x20, CHR 0xA0])"

definition matchUrlAt :: "string \<Rightarrow> string option" where
  \<comment> \<open>\<^verbatim>\<open>https?:\/\/[^\s]+\<close> at the start of the string: the scheme, then the longest run
      of characters that are not white space, which must not be empty\<close>
  "matchUrlAt s =
     (let scheme = (if startsWith s ''https://'' then ''https://''
                    else if startsWith s ''http://'' then ''http://'' else []);
          body = takeWhile (\<lambda>c. \<not> isWhiteSpace c) (drop (length scheme) s)
      in if scheme = [] \<or> body = [] then None else Some (scheme @ body))"

function matchAllUrls :: "string \<Rightarrow> string list" where
  \<comment> \<open>\<^verbatim>\<open>content.match(urlRegex) || []\<close> with the global flag: the matches from left to
      right, the search resuming behind each match\<close>
  "matchAllUrls [] = []"
| "matchAllUrls (c # cs) =
     (case matchUrlAt (c # cs) of
        None \<Rightarrow> matchAllUrls cs
      | Some m \<Rightarrow> m # matchAllUrls (drop (length m) (c # cs)))"
  by pat_completeness auto
termination
  by (relation "measure length")
     (auto simp: matchUrlAt_def Let_def split: if_splits)

subsection \<open>The rules\<close>

definition urgentWords :: "string list" where
  "urgentWords = [''urgent'', ''immediately'', ''alert'', ''attention'', ''verify'',
     ''suspend'', ''locked'']"

definition sensitiveWords :: "string list" where
  "sensitiveWords = [''password'', ''credit card'', ''account'', ''login'',
     ''social security'', ''bank'']"

definition initialScan :: scan_state where
  "initialScan = \<lparr>riskLevel = Safe, indicators = [], suspiciousLinks = []\<rparr>"

definition urgentRule :: "string \<Rightarrow> string \<Rightarrow> scan_state \<Rightarrow> scan_state" where
  "urgentRule content' subject' s =
     (if list_ex (\<lambda>word. str_includes content' word \<or> str_includes subject' word) urgentWords
      then s\<lparr>indicators := indicators s @ [''Uses urgent language to create pressure''],
             riskLevel := Suspicious\<rparr>
      else s)"

definition sensitiveRule :: "string \<Rightarrow> scan_state \<Rightarrow> scan_state" where
  "sensitiveRule content' s =
     (if list_ex (\<lambda>word. str_includes content' word) sensitiveWords
      then s\<lparr>indicators := indicators s @ [''Requests sensitive personal information''],
             riskLevel := Suspicious\<rparr>
      else s)"

definition spoofingRule :: "string \<Rightarrow> scan_state \<Rightarrow> scan_state" where
  "spoofingRule sender' s =
     (if (str_includes sender' ''paypal'' \<and> \<not> endsWith sender' ''@paypal.com'')
         \<or> (str_includes sender' ''amazon'' \<and> \<not> endsWith sender' ''@amazon.com'')
         \<or> (str_includes sender' ''apple'' \<and> \<not> endsWith sender' ''@apple.com'')
      then s\<lparr>indicators := indicators s @ [''Sender domain spoofing detected''],
             riskLevel := Phishing\<rparr>
      else s)"

definition authLinkRule :: "string \<Rightarrow> scan_state \<Rightarrow> scan_state" where
  "authLinkRule u s =
     (if str_includes u ''login'' \<or> str_includes u ''verify'' \<or> str_includes u ''secure''
      then s\<lparr>suspiciousLinks := suspiciousLinks s @
               [\<lparr>link_url = u,
                 reason = ''URL contains suspicious keywords related to authentication''\<rparr>],
             riskLevel := Phishing\<rparr>
      else s)"

definition typoLinkRule :: "string \<Rightarrow> scan_state \<Rightarrow> scan_state" where
  "typoLinkRule u s =
     (if str_includes u ''paypa1'' \<or> str_includes u ''arnazon'' \<or> str_includes u ''app1e''
      then s\<lparr>suspiciousLinks := suspiciousLinks s @
               [\<lparr>link_url = u,
                 reason = ''Possible typosquatting detected (domain mimics popular brand)''\<rparr>],
             riskLevel := Phishing\<rparr>
      else s)"

definition linkRules :: "string \<Rightarrow> (scan_state \<Rightarrow> scan_state) list" where
  \<comment> \<open>the body of \<^verbatim>\<open>urls.forEach\<close> for one link\<close>
  "linkRules u = [authLinkRule u, typoLinkRule u]"

definition scanRules :: "FormValues \<Rightarrow> (scan_state \<Rightarrow> scan_state) list" where
  \<comment> \<open>the rules in the order in which the function body runs them\<close>
  "scanRules d =
     (let content' = toLowerCase (content d);
          sender' = toLowerCase (sender d);
          subject' = toLowerCase (subject d);
          urls = matchAllUrls content'
      in [urgentRule content' subject', sensitiveRule content', spoofingRule sender']
         @ concat (map linkRules urls))"

fun applyRules :: "scan_state \<Rightarrow> (scan_state \<Rightarrow> scan_state) list \<Rightarrow> scan_state" where
  "applyRules s [] = s"
| "applyRules s (r # rs) = applyRules (r s) rs"

fun statesOf :: "scan_state \<Rightarrow> (scan_state \<Rightarrow> scan_state) list \<Rightarrow> scan_state list" where
  \<comment> \<open>the state before the first rule and behind each rule\<close>
  "statesOf s [] = [s]"
| "statesOf s (r # rs) = s # statesOf (r s) rs"

definition scanned :: "FormValues \<Rightarrow> scan_state" where
  \<comment> \<open>the variables when the last rule has run, before the result is assembled\<close>
  "scanned d = applyRules initialScan (scanRules d)"

definition generateMockAnalysisResult :: "FormValues \<Rightarrow> AnalysisResult" where
  "generateMockAnalysisResult d =
     (let s = scanned d;
          s = (if riskLevel s = Phishing \<and> length (indicators s) < 2
               then s\<lparr>indicators := indicators s @ [''Multiple suspicious elements detected'']\<rparr>
               else s)
      in \<lparr>riskLevel = riskLevel s,
          indicators = indicators s,
          suspiciousLinks = suspiciousLinks s,
          confidence = (if riskLevel s = Phishing then 92
                        else if riskLevel s = Suspicious then 75 else 88),
          analysis =
            (if riskLevel s = Phishing then
               ''This email contains multiple elements commonly found in phishing attempts, including urgent language, requests for sensitive information, and suspicious links.''
             else if riskLevel s = Suspicious then
               ''This email contains some suspicious elements that warrant caution, but may be legitimate.''
             else ''This email appears to be legitimate with no obvious security concerns detected.''),
          recommendedAction =
            (if riskLevel s = Phishing then
               ''Block this email and alert the recipient not to interact with it.''
             else if riskLevel s = Suspicious then
               ''Review this email carefully before deciding whether to deliver it to the recipient.''
             else ''No action needed, this email can be delivered normally.'')\<rparr>)"

definition riskTier :: "RiskLevel \<Rightarrow> nat" where
  "riskTier l = (case l of Safe \<Rightarrow> 0 | Suspicious \<Rightarrow> 1 | Phishing \<Rightarrow> 2)"

definition urlTier :: "UrlStatus \<Rightarrow> nat" where
  "urlTier t = (case t of UrlSafe \<Rightarrow> 0 | UrlSuspicious \<Rightarrow> 1 | UrlMalicious \<Rightarrow> 2)"

subsection \<open>The request to the analysis service and the fallback\<close>

text \<open>
  What \<^verbatim>\<open>fetch('/api/analyze-email')\<close> and the reading of its body can come to: the
  request is rejected; the response is not \<^verbatim>\<open>ok\<close>, with its status, status text and
  body; the response is \<^verbatim>\<open>ok\<close> and \<^verbatim>\<open>response.json()\<close> is rejected; the response is
  \<^verbatim>\<open>ok\<close> and its body is read as an analysis result, which the source stores without
  a look at its shape. What \<^verbatim>\<open>fetch\<close> and \<^verbatim>\<open>json\<close> reject with, and what the source
  throws itself, is an \<^verbatim>\<open>Error\<close> with a message.
\<close>

datatype error_body =
    NoJson
  | ErrorObject string  \<comment> \<open>the \<^verbatim>\<open>error\<close> property of the body, empty when there is none\<close>

datatype api_response =
    NetworkError string
  | NonSuccess nat string error_body
  | UnparseablePayload string
  | Analysis AnalysisResult

function decimal :: "nat \<Rightarrow> string" where
  "decimal n = (if n < 10 then [char_of (48 + n)]
                else decimal (n div 10) @ [char_of (48 + n mod 10)])"
  by pat_completeness auto
termination
  by (relation "measure id") auto

definition thrownMessage :: "api_response \<Rightarrow> string" where
  \<comment> \<open>the message of the error that reaches the \<^verbatim>\<open>catch\<close> block\<close>
  "thrownMessage resp =
     (case resp of
        NetworkError m \<Rightarrow> m
      | NonSuccess code statusText body \<Rightarrow>
          (let errorMessage = ''API Error: '' @ decimal code @ '' '' @ statusText
           in case body of
                NoJson \<Rightarrow> errorMessage
              | ErrorObject e \<Rightarrow> (if e \<noteq> [] then e else errorMessage))
      | UnparseablePayload m \<Rightarrow> m
      | Analysis r \<Rightarrow> [])"

definition requestFailed :: "api_response \<Rightarrow> bool" where
  "requestFailed resp = (case resp of Analysis r \<Rightarrow> False | _ \<Rightarrow> True)"

text \<open>
  The state of the form: its three state variables, and the callbacks that
  \<^verbatim>\<open>setTimeout\<close> has scheduled and that have not run yet, oldest first (each is
  \<^verbatim>\<open>handleApiFailure(data)\<close>, so it is kept as its \<^verbatim>\<open>data\<close>).
\<close>

record form_state =
  isAnalyzing :: bool
  analysisResults :: "AnalysisResult option"
  analysisError :: "string option"
  pendingTimers :: "FormValues list"

definition initialForm :: form_state where
  "initialForm = \<lparr>isAnalyzing = False, analysisResults = None, analysisError = None,
     pendingTimers = []\<rparr>"

definition handleApiFailure :: "FormValues \<Rightarrow> form_state \<Rightarrow> form_state" where
  "handleApiFailure d st =
     st\<lparr>analysisResults := Some (generateMockAnalysisResult d), isAnalyzing := False\<rparr>"

definition analyzeEmail :: "api_response \<Rightarrow> FormValues \<Rightarrow> form_state \<Rightarrow> form_state" where
  "analyzeEmail resp d st =
     (let st = st\<lparr>isAnalyzing := True, analysisResults := None, analysisError := None\<rparr>;
          st = (case resp of
                  Analysis analysisResult \<Rightarrow> st\<lparr>analysisResults := Some analysisResult\<rparr>
                | _ \<Rightarrow> st\<lparr>analysisError := Some (thrownMessage resp),
                          pendingTimers := pendingTimers st @ [d]\<rparr>)
      in st\<lparr>isAnalyzing := False\<rparr>)"

definition timerFires :: "form_state \<Rightarrow> form_state" where
  \<comment> \<open>the oldest scheduled callback runs\<close>
  "timerFires st =
     (case pendingTimers st of
        [] \<Rightarrow> st
      | d # ds \<Rightarrow> handleApiFailure d (st\<lparr>pendingTimers := ds\<rparr>))"

text \<open>The email of the specification's example scenario.\<close>

definition exampleEmail :: FormValues where
  "exampleEmail = \<lparr>sender = ''support@paypa1-alerts.com'',
     subject = ''Urgent: verify your account'',
     content = ''Please login at https://paypa1.com/verify''\<rparr>"

text \<open>An email whose only finding is a link with an authentication keyword.\<close>

definition linkOnlyEmail :: FormValues where
  "linkOnlyEmail = \<lparr>sender = ''x@y.com'', subject = ''hi'',
     content = ''see http://a.b/secure now''\<rparr>"

section \<open>What the string functions compute\<close>

text \<open>
  The recursive string functions agree with the meaning of the JavaScript methods:
  a prefix, a suffix, a substring, and a run of characters drawn from the classes of an
  alternative.
\<close>

lemma startsWith_iff: "startsWith s p \<longleftrightarrow> (\<exists>suf. s = p @ suf)"
  by (induction s p rule: startsWith.induct) auto

lemma endsWith_iff: "endsWith s p \<longleftrightarrow> (\<exists>pre. s = pre @ p)"
proof -
  have "(\<exists>suf. rev s = rev p @ suf) \<longleftrightarrow> (\<exists>pre. s = pre @ p)"
  proof
    assume "\<exists>suf. rev s = rev p @ suf"
    then obtain suf where "rev s = rev p @ suf" by blast
    then have "rev (rev s) = rev (rev p @ suf)" by simp
    then have "s = rev suf @ p" by simp
    then show "\<exists>pre. s = pre @ p" by blast
  next
    assume "\<exists>pre. s = pre @ p"
    then obtain pre where "s = pre @ p" by blast
    then have "rev s = rev p @ rev pre" by simp
    then show "\<exists>suf. rev s = rev p @ suf" by blast
  qed
  then show ?thesis by (simp add: endsWith_def startsWith_iff)
qed

lemma str_includes_iff: "str_includes s t \<longleftrightarrow> (\<exists>pre suf. s = pre @ t @ suf)"
proof (induction s)
  case Nil
  then show ?case by auto
next
  case (Cons c cs)
  show ?case
  proof
    assume "str_includes (c # cs) t"
    then consider "startsWith (c # cs) t" | "str_includes cs t" by auto
    then show "\<exists>pre suf. c # cs = pre @ t @ suf"
    proof cases
      case 1
      then obtain suf where "c # cs = t @ suf" by (auto simp: startsWith_iff)
      then have "c # cs = [] @ t @ suf" by simp
      then show ?thesis by blast
    next
      case 2
      then obtain pre suf where "cs = pre @ t @ suf" using Cons.IH by blast
      then have "c # cs = (c # pre) @ t @ suf" by simp
      then show ?thesis by blast
    qed
  next
    assume "\<exists>pre suf. c # cs = pre @ t @ suf"
    then obtain pre suf where eq: "c # cs = pre @ t @ suf" by blast
    show "str_includes (c # cs) t"
    proof (cases pre)
      case Nil
      with eq have "startsWith (c # cs) t" by (auto simp: startsWith_iff)
      then show ?thesis by simp
    next
      case (Cons p ps)
      with eq have "cs = ps @ t @ suf" by simp
      then have "str_includes cs t" using Cons.IH by blast
      then show ?thesis by simp
    qed
  qed
qed

lemma matchesAt_iff:
  "matchesAt a s \<longleftrightarrow> (\<exists>m suf. s = m @ suf \<and> list_all2 (\<lambda>k c. c \<in> set k) a m)"
proof (induction a s rule: matchesAt.induct)
  case (1 s)
  then show ?case by simp
next
  case (2 k ks)
  then show ?case by (simp add: list_all2_Cons1)
next
  case (3 k ks c cs)
  show ?case
  proof
    assume "matchesAt (k # ks) (c # cs)"
    then have "c \<in> set k" and "matchesAt ks cs" by simp_all
    then obtain m suf where "cs = m @ suf" "list_all2 (\<lambda>k c. c \<in> set k) ks m"
      using 3 by blast
    with \<open>c \<in> set k\<close> have "c # cs = (c # m) @ suf"
      "list_all2 (\<lambda>k c. c \<in> set k) (k # ks) (c # m)" by simp_all
    then show "\<exists>m suf. c # cs = m @ suf \<and> list_all2 (\<lambda>k c. c \<in> set k) (k # ks) m"
      by blast
  next
    assume "\<exists>m suf. c # cs = m @ suf \<and> list_all2 (\<lambda>k c. c \<in> set k) (k # ks) m"
    then obtain m suf where eq: "c # cs = m @ suf"
      and all: "list_all2 (\<lambda>k c. c \<in> set k) (k # ks) m" by blast
    from all obtain x xs where m: "m = x # xs" "x \<in> set k"
      "list_all2 (\<lambda>k c. c \<in> set k) ks xs" by (auto simp: list_all2_Cons1)
    with eq have "c = x" "cs = xs @ suf" by simp_all
    with m 3 have "matchesAt ks cs" by blast
    with m \<open>c = x\<close> show "matchesAt (k # ks) (c # cs)" by simp
  qed
qed

lemma matchesWithin_iff:
  "matchesWithin a s \<longleftrightarrow>
     (\<exists>pre m suf. s = pre @ m @ suf \<and> list_all2 (\<lambda>k c. c \<in> set k) a m)"
proof (induction s)
  case Nil
  then show ?case by (auto simp: matchesAt_iff)
next
  case (Cons c cs)
  show ?case
  proof
    assume "matchesWithin a (c # cs)"
    then consider "matchesAt a (c # cs)" | "matchesWithin a cs" by auto
    then show "\<exists>pre m suf. c # cs = pre @ m @ suf \<and> list_all2 (\<lambda>k c. c \<in> set k) a m"
    proof cases
      case 1
      then obtain m suf where "c # cs = [] @ m @ suf" "list_all2 (\<lambda>k c. c \<in> set k) a m"
        by (auto simp: matchesAt_iff)
      then show ?thesis by blast
    next
      case 2
      then obtain pre m suf where "cs = pre @ m @ suf" "list_all2 (\<lambda>k c. c \<in> set k) a m"
        using Cons.IH by blast
      then have "c # cs = (c # pre) @ m @ suf" "list_all2 (\<lambda>k c. c \<in> set k) a m"
        by simp_all
      then show ?thesis by blast
    qed
  next
    assume "\<exists>pre m suf. c # cs = pre @ m @ suf \<and> list_all2 (\<lambda>k c. c \<in> set k) a m"
    then obtain pre m suf where eq: "c # cs = pre @ m @ suf"
      and all: "list_all2 (\<lambda>k c. c \<in> set k) a m" by blast
    show "matchesWithin a (c # cs)"
    proof (cases pre)
      case Nil
      with eq all have "matchesAt a (c # cs)" by (auto simp: matchesAt_iff)
      then show ?thesis by simp
    next
      case (Cons p ps)
      with eq have "cs = ps @ m @ suf" by simp
      with all have "matchesWithin a cs" using Cons.IH by blast
      then show ?thesis by simp
    qed
  qed
qed

section \<open>Properties of the URL checker\<close>

lemmas string_defs = toLowerCase_def toLowerChar_def isUpperCase_def endsWith_def
lemmas url_defs = withScheme_def isLegitDomain_def knownLegitDomains_def hasTyposquatting_def
  typosquattingRegex_def regex_test_def isKnownPhishingPattern_def hasSuspiciousPath_def
  ruleChain_def initialVerdict_def sampleHostnames_def mentions_def

lemma isLegitDomain_iff:
  "isLegitDomain domain \<longleftrightarrow>
     (\<exists>d\<in>set knownLegitDomains. domain = d \<or> (\<exists>sub. domain = sub @ ''.'' @ d))"
  by (simp only: isLegitDomain_def list_ex_iff endsWith_iff)

lemma hasTyposquatting_iff:
  "hasTyposquatting domain \<longleftrightarrow>
     (\<exists>a\<in>set typosquattingRegex. \<exists>pre m suf.
        domain = pre @ m @ suf \<and> list_all2 (\<lambda>k c. c \<in> set k) a m)"
  by (simp only: hasTyposquatting_def regex_test_def list_ex_iff matchesWithin_iff)

lemma validateUrl_parsed:
  "input \<noteq> [] \<Longrightarrow> parse (withScheme input) = Some host \<Longrightarrow> validateUrl parse input"
  by (simp add: validateUrl_def)

lemma analyzeUrl_parsed:
  assumes "input \<noteq> []" and "parse (withScheme input) = Some host"
  shows "analyzeUrl parse rnd input =
    Checked (buildResult rnd (withScheme input)
      (ruleChain rnd (withScheme input) (toLowerCase host) initialVerdict))"
  using assms by (simp add: analyzeUrl_def validateUrl_def Let_def)

lemma status_buildResult [simp]: "status (buildResult rnd u v) = v_status v"
  by (simp add: buildResult_def)

lemma confidenceScore_buildResult [simp]:
  "confidenceScore (buildResult rnd u v) = v_confidenceScore v"
  by (simp add: buildResult_def)

lemma maliciousPatterns_buildResult [simp]:
  "maliciousPatterns (details (buildResult rnd u v)) = v_maliciousPatterns v"
  by (simp add: buildResult_def)

text \<open>
  C1. A URL whose hostname, in lower case, is a domain of the allow-list, or ends with a
  dot and such a domain, is checked with the verdict safe, and with a confidence from 95
  on when the random number is not negative. In particular the input \<^verbatim>\<open>google.com\<close>,
  whose hostname the parser gives as \<^verbatim>\<open>google.com\<close>, is safe with a confidence of at
  least 90.
\<close>

theorem allowlisted_url_is_safe:
  "(input \<noteq> [] \<and> parse (withScheme input) = Some host \<and> d \<in> set knownLegitDomains
      \<and> (toLowerCase host = d \<or> toLowerCase host = sub @ ''.'' @ d)
    \<longrightarrow> (\<exists>r. analyzeUrl parse rnd input = Checked r \<and> status r = UrlSafe
              \<and> (0 \<le> rnd 0 \<longrightarrow> 95 \<le> confidenceScore r)))
   \<and> (parse ''https://google.com'' = Some ''google.com'' \<and> 0 \<le> rnd 0
    \<longrightarrow> (\<exists>r. analyzeUrl parse rnd ''google.com'' = Checked r \<and> status r = UrlSafe
              \<and> 90 \<le> confidenceScore r))"
proof -
  have general: "\<exists>r. analyzeUrl parse rnd i = Checked r \<and> status r = UrlSafe
      \<and> (0 \<le> rnd 0 \<longrightarrow> 95 \<le> confidenceScore r)"
    if "i \<noteq> []" "parse (withScheme i) = Some h" "e \<in> set knownLegitDomains"
      "toLowerCase h = e \<or> toLowerCase h = s @ ''.'' @ e"
    for i h e s
  proof -
    have "isLegitDomain (toLowerCase h)"
      unfolding isLegitDomain_iff using that(3,4) by blast
    moreover have "0 \<le> \<lfloor>rnd 0 * 5\<rfloor>" if "0 \<le> rnd 0" using that by simp
    ultimately show ?thesis
      using that(1,2) by (simp add: analyzeUrl_parsed ruleChain_def)
  qed
  have listed: "''google.com'' \<in> set knownLegitDomains"
    by (simp add: knownLegitDomains_def)
  have lower: "toLowerCase ''google.com'' = ''google.com''"
    by (simp add: string_defs)
  have scheme: "withScheme ''google.com'' = ''https://google.com''"
    by (simp add: withScheme_def)
  have "\<exists>r. analyzeUrl parse rnd ''google.com'' = Checked r \<and> status r = UrlSafe
      \<and> 90 \<le> confidenceScore r"
    if "parse ''https://google.com'' = Some ''google.com''" "0 \<le> rnd 0"
    using general [of "''google.com''" "''google.com''" "''google.com''"] that listed lower
      scheme
    by fastforce
  with general show ?thesis by blast
qed

theorem allowlisted_url_is_safe_witness:
  "''mail.google.com'' \<noteq> []
   \<and> sampleHostnames (withScheme ''mail.google.com'') = Some ''mail.google.com''
   \<and> ''google.com'' \<in> set knownLegitDomains
   \<and> toLowerCase ''mail.google.com'' = ''mail'' @ ''.'' @ ''google.com''
   \<and> sampleHostnames ''https://google.com'' = Some ''google.com'' \<and> (0::real) \<le> lowDraws 0
   \<and> (\<exists>r. analyzeUrl sampleHostnames lowDraws ''mail.google.com'' = Checked r
          \<and> status r = UrlSafe \<and> 95 \<le> confidenceScore r)
   \<and> (\<exists>r. analyzeUrl sampleHostnames lowDraws ''google.com'' = Checked r
          \<and> status r = UrlSafe \<and> 90 \<le> confidenceScore r)"
  using allowlisted_url_is_safe
    [of "''mail.google.com''" sampleHostnames "''mail.google.com''" "''google.com''"
      "''mail''" lowDraws]
  by (simp add: sampleHostnames_def withScheme_def knownLegitDomains_def string_defs
      lowDraws_def)

text \<open>
  C2. A URL whose hostname, in lower case, matches the brand-impersonation pattern and is
  not on the allow-list (neither a listed domain nor a subdomain of one) is checked with
  the verdict malicious; its one pattern entry names the known phishing pattern when the
  hostname has one, the typosquatting attack otherwise. In particular the input
  \<^verbatim>\<open>g00gle.com\<close> is malicious with an entry that mentions typosquatting.
\<close>

theorem typosquatting_url_is_malicious:
  "(input \<noteq> [] \<and> parse (withScheme input) = Some host \<and> hasTyposquatting (toLowerCase host)
      \<and> \<not> isLegitDomain (toLowerCase host)
    \<longrightarrow> (\<exists>r. analyzeUrl parse rnd input = Checked r \<and> status r = UrlMalicious
              \<and> maliciousPatterns (details r) =
                  (if isKnownPhishingPattern (toLowerCase host)
                   then [''Known phishing domain pattern'']
                   else [''Potential typosquatting attack (brand impersonation)''])))
   \<and> (parse ''https://g00gle.com'' = Some ''g00gle.com''
    \<longrightarrow> (\<exists>r. analyzeUrl parse rnd ''g00gle.com'' = Checked r \<and> status r = UrlMalicious
              \<and> mentions ''typosquatting'' (maliciousPatterns (details r))))"
proof -
  have general: "\<exists>r. analyzeUrl parse rnd i = Checked r \<and> status r = UrlMalicious
      \<and> maliciousPatterns (details r) =
          (if isKnownPhishingPattern (toLowerCase h)
           then [''Known phishing domain pattern'']
           else [''Potential typosquatting attack (brand impersonation)''])"
    if "i \<noteq> []" "parse (withScheme i) = Some h" "hasTyposquatting (toLowerCase h)"
      "\<not> isLegitDomain (toLowerCase h)"
    for i h
    using that by (simp add: analyzeUrl_parsed ruleChain_def initialVerdict_def)
  have lower: "toLowerCase ''g00gle.com'' = ''g00gle.com''"
    by (simp add: string_defs)
  have typo: "hasTyposquatting ''g00gle.com''"
    by (simp add: hasTyposquatting_def typosquattingRegex_def regex_test_def)
  have not_legit: "\<not> isLegitDomain ''g00gle.com''"
    by (simp add: isLegitDomain_def knownLegitDomains_def endsWith_def)
  have not_known: "\<not> isKnownPhishingPattern ''g00gle.com''"
    by (simp add: isKnownPhishingPattern_def)
  have scheme: "withScheme ''g00gle.com'' = ''https://g00gle.com''"
    by (simp add: withScheme_def)
  have word: "mentions ''typosquatting''
      [''Potential typosquatting attack (brand impersonation)'']"
    by (simp add: mentions_def)
  have "\<exists>r. analyzeUrl parse rnd ''g00gle.com'' = Checked r \<and> status r = UrlMalicious
      \<and> mentions ''typosquatting'' (maliciousPatterns (details r))"
    if "parse ''https://g00gle.com'' = Some ''g00gle.com''"
    using general [of "''g00gle.com''" "''g00gle.com''"] that lower typo not_legit not_known
      scheme word
    by auto
  with general show ?thesis by blast
qed

theorem typosquatting_url_is_malicious_witness:
  "''g00gle.com'' \<noteq> [] \<and> sampleHostnames (withScheme ''g00gle.com'') = Some ''g00gle.com''
   \<and> hasTyposquatting (toLowerCase ''g00gle.com'') \<and> \<not> isLegitDomain (toLowerCase ''g00gle.com'')
   \<and> (\<exists>r. analyzeUrl sampleHostnames lowDraws ''g00gle.com'' = Checked r
          \<and> status r = UrlMalicious
          \<and> mentions ''typosquatting'' (maliciousPatterns (details r)))"
  using typosquatting_url_is_malicious
    [of "''g00gle.com''" sampleHostnames "''g00gle.com''" lowDraws]
  by (simp add: string_defs url_defs)

lemma outcomeStatus_simps [simp]:
  "outcomeStatus (ValidationError m) = None"
  "outcomeStatus ErrorLogged = None"
  "outcomeStatus (Checked r) = Some (status r)"
  by (simp_all add: outcomeStatus_def)

lemma outcomeConfidence_simps [simp]:
  "outcomeConfidence (ValidationError m) = None"
  "outcomeConfidence ErrorLogged = None"
  "outcomeConfidence (Checked r) = Some (confidenceScore r)"
  by (simp_all add: outcomeConfidence_def)

lemma analyzeUrl_unparsed:
  "parse (withScheme input) = None
   \<Longrightarrow> analyzeUrl parse rnd input = ValidationError ''Please enter a valid URL''"
  by (simp add: analyzeUrl_def validateUrl_def)

text \<open>
  C4. An input that the parser rejects behind the scheme-prefixing is answered with the
  validation error of the form: no result is stored, so there is no verdict, and none
  that reads safe. In particular so for the input \<^verbatim>\<open>not a url\<close>.
\<close>

theorem unparseable_url_is_validation_error:
  "(parse (withScheme input) = None
    \<longrightarrow> analyzeUrl parse rnd input = ValidationError ''Please enter a valid URL''
        \<and> outcomeStatus (analyzeUrl parse rnd input) = None)
   \<and> (parse ''https://not a url'' = None
    \<longrightarrow> analyzeUrl parse rnd ''not a url'' = ValidationError ''Please enter a valid URL''
        \<and> outcomeStatus (analyzeUrl parse rnd ''not a url'') = None)"
proof -
  have scheme: "withScheme ''not a url'' = ''https://not a url''"
    by (simp add: withScheme_def)
  have "analyzeUrl parse rnd i = ValidationError ''Please enter a valid URL''
      \<and> outcomeStatus (analyzeUrl parse rnd i) = None"
    if "parse (withScheme i) = None" for i
    using that by (simp add: analyzeUrl_unparsed)
  from this this [of "''not a url''"] scheme show ?thesis by simp
qed

theorem unparseable_url_is_validation_error_witness:
  "sampleHostnames (withScheme ''not a url'') = None
   \<and> analyzeUrl sampleHostnames lowDraws ''not a url''
        = ValidationError ''Please enter a valid URL''
   \<and> outcomeStatus (analyzeUrl sampleHostnames lowDraws ''not a url'') = None"
proof -
  have rejected: "sampleHostnames (withScheme ''not a url'') = None"
    by (simp add: sampleHostnames_def withScheme_def)
  with unparseable_url_is_validation_error [of sampleHostnames "''not a url''" lowDraws]
  show ?thesis by simp
qed

section \<open>Properties of the email form\<close>

lemmas email_defs = generateMockAnalysisResult_def scanned_def scanRules_def Let_def
  matchUrlAt_def isWhiteSpace_def urgentRule_def sensitiveRule_def spoofingRule_def
  authLinkRule_def typoLinkRule_def linkRules_def urgentWords_def sensitiveWords_def
  initialScan_def

lemma riskTier_le_2: "riskTier l \<le> 2"
  by (cases l) (simp_all add: riskTier_def)

lemma spoofingRule_raises:
  "riskTier (riskLevel s) \<le> riskTier (riskLevel (spoofingRule sd s))"
  using riskTier_le_2 [of "riskLevel s"] by (simp add: spoofingRule_def riskTier_def)

lemma authLinkRule_raises:
  "riskTier (riskLevel s) \<le> riskTier (riskLevel (authLinkRule u s))"
  using riskTier_le_2 [of "riskLevel s"] by (simp add: authLinkRule_def riskTier_def)

lemma typoLinkRule_raises:
  "riskTier (riskLevel s) \<le> riskTier (riskLevel (typoLinkRule u s))"
  using riskTier_le_2 [of "riskLevel s"] by (simp add: typoLinkRule_def riskTier_def)

lemma linkRules_raise:
  "\<forall>r\<in>set (concat (map linkRules urls)). \<forall>s.
     riskTier (riskLevel s) \<le> riskTier (riskLevel (r s))"
  by (auto simp: linkRules_def authLinkRule_raises typoLinkRule_raises)

lemma statesOf_lower_bound:
  assumes "\<forall>r\<in>set rs. \<forall>s. riskTier (riskLevel s) \<le> riskTier (riskLevel (r s))"
  shows "\<forall>t\<in>set (statesOf s rs). riskTier (riskLevel s) \<le> riskTier (riskLevel t)"
  using assms
proof (induction rs arbitrary: s)
  case Nil
  then show ?case by simp
next
  case (Cons r rs)
  have step: "riskTier (riskLevel s) \<le> riskTier (riskLevel (r s))"
    using Cons.prems by simp
  have "\<forall>r\<in>set rs. \<forall>s. riskTier (riskLevel s) \<le> riskTier (riskLevel (r s))"
    using Cons.prems by simp
  then have "\<forall>t\<in>set (statesOf (r s) rs). riskTier (riskLevel (r s)) \<le> riskTier (riskLevel t)"
    by (rule Cons.IH)
  with step show ?case by (auto intro: order_trans)
qed

lemma statesOf_sorted:
  assumes "\<forall>r\<in>set rs. \<forall>s. riskTier (riskLevel s) \<le> riskTier (riskLevel (r s))"
  shows "sorted (map (riskTier \<circ> riskLevel) (statesOf s rs))"
  using assms
proof (induction rs arbitrary: s)
  case Nil
  then show ?case by simp
next
  case (Cons r rs)
  have "\<forall>t\<in>set (statesOf s (r # rs)). riskTier (riskLevel s) \<le> riskTier (riskLevel t)"
    using statesOf_lower_bound [OF Cons.prems] .
  moreover have "\<forall>r\<in>set rs. \<forall>s. riskTier (riskLevel s) \<le> riskTier (riskLevel (r s))"
    using Cons.prems by simp
  then have "sorted (map (riskTier \<circ> riskLevel) (statesOf (r s) rs))"
    by (rule Cons.IH)
  ultimately show ?case by (simp add: comp_def)
qed

lemma last_statesOf: "last (statesOf s rs) = applyRules s rs"
proof (induction rs arbitrary: s)
  case Nil
  then show ?case by simp
next
  case (Cons r rs)
  have "statesOf (r s) rs \<noteq> []" by (cases rs) simp_all
  with Cons show ?case by simp
qed

lemma urgentRule_initial:
  "riskTier (riskLevel (urgentRule c sj initialScan)) \<le> 1"
  by (simp add: urgentRule_def initialScan_def riskTier_def)

lemma sensitiveRule_low:
  "riskTier (riskLevel s) \<le> 1 \<Longrightarrow>
     riskTier (riskLevel s) \<le> riskTier (riskLevel (sensitiveRule c s))
     \<and> riskTier (riskLevel (sensitiveRule c s)) \<le> 1"
  by (simp add: sensitiveRule_def riskTier_def)

lemma scan_states_sorted:
  "sorted (map (riskTier \<circ> riskLevel) (statesOf initialScan (scanRules d)))"
proof -
  define c where "c = toLowerCase (content d)"
  define sj where "sj = toLowerCase (subject d)"
  define sd where "sd = toLowerCase (sender d)"
  define links where "links = concat (map linkRules (matchAllUrls c))"
  define s1 where "s1 = urgentRule c sj initialScan"
  define s2 where "s2 = sensitiveRule c s1"
  define s3 where "s3 = spoofingRule sd s2"
  have rules: "scanRules d = [urgentRule c sj, sensitiveRule c, spoofingRule sd] @ links"
    by (simp add: scanRules_def Let_def c_def sj_def sd_def links_def)
  have states: "statesOf initialScan (scanRules d)
      = initialScan # s1 # s2 # statesOf s3 links"
    by (simp add: rules s1_def s2_def s3_def)
  have t0: "riskTier (riskLevel initialScan) = 0"
    by (simp add: initialScan_def riskTier_def)
  have t1: "riskTier (riskLevel s1) \<le> 1"
    unfolding s1_def by (rule urgentRule_initial)
  have t2: "riskTier (riskLevel s1) \<le> riskTier (riskLevel s2)"
    unfolding s2_def using sensitiveRule_low [OF t1] by simp
  have t3: "riskTier (riskLevel s2) \<le> riskTier (riskLevel s3)"
    unfolding s3_def by (rule spoofingRule_raises)
  have raise: "\<forall>r\<in>set links. \<forall>s. riskTier (riskLevel s) \<le> riskTier (riskLevel (r s))"
    unfolding links_def by (rule linkRules_raise)
  have tail_sorted: "sorted (map (riskTier \<circ> riskLevel) (statesOf s3 links))"
    using statesOf_sorted [OF raise] .
  have tail_bound: "\<forall>t\<in>set (statesOf s3 links). riskTier (riskLevel s3) \<le> riskTier (riskLevel t)"
    using statesOf_lower_bound [OF raise] .
  show ?thesis
    unfolding states using t0 t2 t3 tail_sorted tail_bound
    by (auto simp: comp_def intro: order_trans)
qed

lemma riskLevel_generateMockAnalysisResult:
  "riskLevel (generateMockAnalysisResult d) = riskLevel (scanned d)"
  by (simp add: generateMockAnalysisResult_def Let_def)

lemma ruleChain_first_branch:
  "v_status (ruleChain rnd u domain v)
     = (case find fst (urlBranches rnd u domain) of
          None \<Rightarrow> v_status v
        | Some b \<Rightarrow> snd b)"
  by (simp add: ruleChain_def urlBranches_def)

text \<open>
  C3. Within one evaluation the verdict only moves upward. In email mode the risk levels
  of the states before the first rule and behind each rule, in the order in which the
  rules run, never fall, and the returned risk level is that of the last state. In URL
  mode the status behind the chain is the status of the first branch whose condition
  holds, whatever the conditions of the later branches, and the status before the chain
  when no condition holds: one branch at most assigns, so nothing assigned is lowered;
  from the initial safe the status is at or above it.
\<close>

theorem verdict_never_downgrades:
  "sorted (map (riskTier \<circ> riskLevel) (statesOf initialScan (scanRules d)))
   \<and> riskLevel (generateMockAnalysisResult d)
       = riskLevel (last (statesOf initialScan (scanRules d)))
   \<and> sorted (map (urlTier \<circ> v_status)
       [initialVerdict, ruleChain rnd u domain initialVerdict])
   \<and> v_status (ruleChain rnd u domain v)
       = (case find fst (urlBranches rnd u domain) of
            None \<Rightarrow> v_status v
          | Some b \<Rightarrow> snd b)"
proof -
  have "urlTier (v_status initialVerdict) = 0"
    by (simp add: initialVerdict_def urlTier_def)
  then show ?thesis
    using scan_states_sorted [of d]
    by (simp add: riskLevel_generateMockAnalysisResult last_statesOf scanned_def
        ruleChain_first_branch)
qed

theorem verdict_never_downgrades_witness:
  "hasTyposquatting ''faceb00k-security.net''
   \<and> str_includes ''faceb00k-security.net'' ''-''
   \<and> find fst (urlBranches lowDraws ''https://faceb00k-security.net''
        ''faceb00k-security.net'') = Some (True, UrlMalicious)
   \<and> v_status (ruleChain lowDraws ''https://faceb00k-security.net''
        ''faceb00k-security.net'' initialVerdict) = UrlMalicious"
proof -
  have first: "find fst (urlBranches lowDraws ''https://faceb00k-security.net''
        ''faceb00k-security.net'') = Some (True, UrlMalicious)"
    by (simp add: urlBranches_def url_defs string_defs lowDraws_def)
  have typo: "hasTyposquatting ''faceb00k-security.net''"
    by (simp add: url_defs)
  have hyphen: "str_includes ''faceb00k-security.net'' ''-''"
    by simp
  from verdict_never_downgrades
    [of exampleEmail lowDraws "''https://faceb00k-security.net''" "''faceb00k-security.net''"
      initialVerdict]
    first typo hyphen
  show ?thesis by simp
qed

lemma timers_drain:
  "pendingTimers st = ts @ [d] \<Longrightarrow>
     analysisResults ((timerFires ^^ Suc (length ts)) st) = Some (generateMockAnalysisResult d)
     \<and> pendingTimers ((timerFires ^^ Suc (length ts)) st) = []
     \<and> \<not> isAnalyzing ((timerFires ^^ Suc (length ts)) st)"
proof (induction ts arbitrary: st)
  case Nil
  then show ?case by (simp add: timerFires_def handleApiFailure_def)
next
  case (Cons t ts)
  have "pendingTimers (timerFires st) = ts @ [d]"
    using Cons.prems by (simp add: timerFires_def handleApiFailure_def)
  from Cons.IH [OF this] show ?case
    by (simp add: funpow_swap1)
qed

lemma analyzeEmail_failed:
  "requestFailed resp \<Longrightarrow>
     analyzeEmail resp d st =
       st\<lparr>isAnalyzing := False, analysisResults := None,
          analysisError := Some (thrownMessage resp),
          pendingTimers := pendingTimers st @ [d]\<rparr>"
  by (cases resp) (simp_all add: analyzeEmail_def requestFailed_def)

text \<open>
  C5. Whenever the request to the analysis service fails (the request is rejected, the
  response is not a success, or its body cannot be parsed), the form records the error
  message and schedules the fallback for the same input; once the scheduled callbacks have
  run, the form holds the result of the local classifier on that input.
\<close>

theorem api_failure_falls_back:
  "requestFailed resp \<longrightarrow>
     pendingTimers (analyzeEmail resp d st) = pendingTimers st @ [d]
     \<and> analysisError (analyzeEmail resp d st) = Some (thrownMessage resp)
     \<and> analysisResults
          ((timerFires ^^ length (pendingTimers (analyzeEmail resp d st)))
             (analyzeEmail resp d st))
        = Some (generateMockAnalysisResult d)"
proof
  assume failed: "requestFailed resp"
  have pending: "pendingTimers (analyzeEmail resp d st) = pendingTimers st @ [d]"
    by (simp add: analyzeEmail_failed [OF failed])
  have err: "analysisError (analyzeEmail resp d st) = Some (thrownMessage resp)"
    by (simp add: analyzeEmail_failed [OF failed])
  from timers_drain [OF pending] pending err
  show "pendingTimers (analyzeEmail resp d st) = pendingTimers st @ [d]
     \<and> analysisError (analyzeEmail resp d st) = Some (thrownMessage resp)
     \<and> analysisResults
          ((timerFires ^^ length (pendingTimers (analyzeEmail resp d st)))
             (analyzeEmail resp d st))
        = Some (generateMockAnalysisResult d)"
    by simp
qed

theorem api_failure_falls_back_witness:
  "requestFailed (NonSuccess 503 ''Service Unavailable'' NoJson)
   \<and> analysisError (analyzeEmail (NonSuccess 503 ''Service Unavailable'' NoJson)
        exampleEmail initialForm) = Some ''API Error: 503 Service Unavailable''
   \<and> analysisResults (timerFires
        (analyzeEmail (NonSuccess 503 ''Service Unavailable'' NoJson) exampleEmail initialForm))
      = Some (generateMockAnalysisResult exampleEmail)"
proof -
  have failed: "requestFailed (NonSuccess 503 ''Service Unavailable'' NoJson)"
    by (simp add: requestFailed_def)
  have msg: "thrownMessage (NonSuccess 503 ''Service Unavailable'' NoJson)
      = ''API Error: 503 Service Unavailable''"
    by code_simp
  note inst = api_failure_falls_back
    [of "NonSuccess 503 ''Service Unavailable'' NoJson" exampleEmail initialForm,
      rule_format, OF failed]
  have one: "length (pendingTimers (analyzeEmail
      (NonSuccess 503 ''Service Unavailable'' NoJson) exampleEmail initialForm)) = Suc 0"
    using inst by (simp add: initialForm_def)
  from inst failed show ?thesis
    unfolding one msg by simp
qed

lemma analyzeUrl_Checked:
  assumes "analyzeUrl parse rnd input = Checked r"
  shows "\<exists>u host. r = buildResult rnd u (ruleChain rnd u (toLowerCase host) initialVerdict)"
  using assms
  by (auto simp: analyzeUrl_def Let_def split: if_splits option.splits)

lemma ruleChain_malicious_patterns:
  "v_status (ruleChain rnd u domain initialVerdict) = UrlMalicious
   \<Longrightarrow> v_maliciousPatterns (ruleChain rnd u domain initialVerdict) \<noteq> []"
  by (simp add: ruleChain_def initialVerdict_def split: if_splits)

text \<open>
  C6. A result of either classifier with the verdict phishing or malicious has an
  indicator: the indicators of a phishing email and the pattern entries of a malicious
  URL are not empty. In email mode, when the rules end at phishing with fewer than two
  indicators, the entry \<^verbatim>\<open>Multiple suspicious elements detected\<close> is appended.
\<close>

theorem high_severity_is_explained:
  "(riskLevel (generateMockAnalysisResult d) = Phishing
      \<longrightarrow> indicators (generateMockAnalysisResult d) \<noteq> [])
   \<and> (riskLevel (scanned d) = Phishing \<and> length (indicators (scanned d)) < 2
      \<longrightarrow> riskLevel (generateMockAnalysisResult d) = Phishing
          \<and> indicators (generateMockAnalysisResult d)
              = indicators (scanned d) @ [''Multiple suspicious elements detected''])
   \<and> (analyzeUrl parse rnd input = Checked r \<and> status r = UrlMalicious
      \<longrightarrow> maliciousPatterns (details r) \<noteq> [])"
proof -
  have email: "riskLevel (generateMockAnalysisResult d) = Phishing
      \<longrightarrow> indicators (generateMockAnalysisResult d) \<noteq> []"
    by (cases "indicators (scanned d)") (simp_all add: generateMockAnalysisResult_def Let_def)
  have generic: "riskLevel (scanned d) = Phishing \<and> length (indicators (scanned d)) < 2
      \<longrightarrow> riskLevel (generateMockAnalysisResult d) = Phishing
          \<and> indicators (generateMockAnalysisResult d)
              = indicators (scanned d) @ [''Multiple suspicious elements detected'']"
    by (simp add: generateMockAnalysisResult_def Let_def)
  have "maliciousPatterns (details r) \<noteq> []"
    if "analyzeUrl parse rnd input = Checked r" "status r = UrlMalicious"
  proof -
    from analyzeUrl_Checked [OF that(1)] obtain u host
      where r: "r = buildResult rnd u (ruleChain rnd u (toLowerCase host) initialVerdict)"
      by blast
    with that(2) show ?thesis
      by (simp add: ruleChain_malicious_patterns)
  qed
  with email generic show ?thesis by blast
qed

theorem high_severity_is_explained_witness:
  "riskLevel (generateMockAnalysisResult linkOnlyEmail) = Phishing
   \<and> riskLevel (scanned linkOnlyEmail) = Phishing
   \<and> length (indicators (scanned linkOnlyEmail)) < 2
   \<and> indicators (generateMockAnalysisResult linkOnlyEmail)
       = [''Multiple suspicious elements detected'']
   \<and> (\<exists>r. analyzeUrl sampleHostnames lowDraws ''g00gle.com'' = Checked r
          \<and> status r = UrlMalicious \<and> maliciousPatterns (details r) \<noteq> [])"
proof -
  have scan: "scanned linkOnlyEmail =
      \<lparr>riskLevel = Phishing, indicators = [],
       suspiciousLinks = [\<lparr>link_url = ''http://a.b/secure'',
         reason = ''URL contains suspicious keywords related to authentication''\<rparr>]\<rparr>"
    by (simp add: linkOnlyEmail_def email_defs string_defs)
  have parsed: "sampleHostnames (withScheme ''g00gle.com'') = Some ''g00gle.com''"
    by (simp add: sampleHostnames_def withScheme_def)
  define r where "r = buildResult lowDraws (withScheme ''g00gle.com'')
      (ruleChain lowDraws (withScheme ''g00gle.com'') (toLowerCase ''g00gle.com'')
         initialVerdict)"
  have checked: "analyzeUrl sampleHostnames lowDraws ''g00gle.com'' = Checked r"
    unfolding r_def using parsed by (simp add: analyzeUrl_parsed)
  have malicious: "status r = UrlMalicious"
    unfolding r_def by (simp add: string_defs url_defs)
  from high_severity_is_explained
    [of linkOnlyEmail sampleHostnames lowDraws "''g00gle.com''" r]
    scan checked malicious
  show ?thesis by (auto simp: generateMockAnalysisResult_def Let_def)
qed

lemma floor_draw_bounds:
  fixes x :: real
  assumes "0 \<le> x" and "x < 1"
  shows "0 \<le> \<lfloor>x * 5\<rfloor> \<and> \<lfloor>x * 5\<rfloor> \<le> 4"
proof -
  have "0 \<le> \<lfloor>x * 5\<rfloor>" using assms(1) by simp
  moreover have "\<lfloor>x * 5\<rfloor> < 5" using assms(2) by (simp add: floor_less_iff)
  ultimately show ?thesis by simp
qed

lemma ruleChain_confidence:
  assumes "0 \<le> rnd 0" and "rnd 0 < 1"
  shows "(case v_status (ruleChain rnd u domain initialVerdict) of
            UrlMalicious \<Rightarrow> v_confidenceScore (ruleChain rnd u domain initialVerdict) = 95
                           \<or> v_confidenceScore (ruleChain rnd u domain initialVerdict) = 92
          | UrlSuspicious \<Rightarrow> v_confidenceScore (ruleChain rnd u domain initialVerdict) = 75
                           \<or> v_confidenceScore (ruleChain rnd u domain initialVerdict) = 68
          | UrlSafe \<Rightarrow> v_confidenceScore (ruleChain rnd u domain initialVerdict) = 90
                       \<or> (95 \<le> v_confidenceScore (ruleChain rnd u domain initialVerdict)
                          \<and> v_confidenceScore (ruleChain rnd u domain initialVerdict) \<le> 99))"
  using floor_draw_bounds [OF assms]
  by (simp add: ruleChain_def initialVerdict_def)

text \<open>
  C7, as stated, fails in URL mode. The input \<^verbatim>\<open>my-site.com\<close> is suspicious with the
  confidence 68, below the band from 70 to 80; and the inputs \<^verbatim>\<open>secure-verify.com\<close> and
  \<^verbatim>\<open>g00gle.com\<close> are both malicious, with the confidences 95 and 92, so the confidence
  is not looked up from the verdict.
\<close>

theorem confidence_band_counterexample:
  "outcomeStatus (analyzeUrl sampleHostnames lowDraws ''my-site.com'') = Some UrlSuspicious
   \<and> outcomeConfidence (analyzeUrl sampleHostnames lowDraws ''my-site.com'') = Some 68
   \<and> outcomeStatus (analyzeUrl sampleHostnames lowDraws ''secure-verify.com'')
       = Some UrlMalicious
   \<and> outcomeConfidence (analyzeUrl sampleHostnames lowDraws ''secure-verify.com'') = Some 95
   \<and> outcomeStatus (analyzeUrl sampleHostnames lowDraws ''g00gle.com'') = Some UrlMalicious
   \<and> outcomeConfidence (analyzeUrl sampleHostnames lowDraws ''g00gle.com'') = Some 92"
proof -
  have a: "sampleHostnames (withScheme ''my-site.com'') = Some ''my-site.com''"
    by (simp add: sampleHostnames_def withScheme_def)
  have b: "sampleHostnames (withScheme ''secure-verify.com'') = Some ''secure-verify.com''"
    by (simp add: sampleHostnames_def withScheme_def)
  have c: "sampleHostnames (withScheme ''g00gle.com'') = Some ''g00gle.com''"
    by (simp add: sampleHostnames_def withScheme_def)
  have "outcomeStatus (analyzeUrl sampleHostnames lowDraws ''my-site.com'') = Some UrlSuspicious
      \<and> outcomeConfidence (analyzeUrl sampleHostnames lowDraws ''my-site.com'') = Some 68"
    using a by (simp add: analyzeUrl_parsed string_defs url_defs lowDraws_def)
  moreover have "outcomeStatus (analyzeUrl sampleHostnames lowDraws ''secure-verify.com'')
        = Some UrlMalicious
      \<and> outcomeConfidence (analyzeUrl sampleHostnames lowDraws ''secure-verify.com'') = Some 95"
    using b by (simp add: analyzeUrl_parsed string_defs url_defs lowDraws_def)
  moreover have "outcomeStatus (analyzeUrl sampleHostnames lowDraws ''g00gle.com'')
        = Some UrlMalicious
      \<and> outcomeConfidence (analyzeUrl sampleHostnames lowDraws ''g00gle.com'') = Some 92"
    using c by (simp add: analyzeUrl_parsed string_defs url_defs lowDraws_def)
  ultimately show ?thesis by simp
qed

lemma ruleChain_by_rule:
  assumes "v = ruleChain rnd u domain initialVerdict"
  shows "(isLegitDomain domain \<longrightarrow> v_status v = UrlSafe
            \<and> (0 \<le> rnd 0 \<and> rnd 0 < 1
                 \<longrightarrow> 95 \<le> v_confidenceScore v \<and> v_confidenceScore v \<le> 99))
       \<and> (\<not> isLegitDomain domain \<and> isKnownPhishingPattern domain
            \<longrightarrow> v_status v = UrlMalicious \<and> v_confidenceScore v = 95)
       \<and> (\<not> isLegitDomain domain \<and> \<not> isKnownPhishingPattern domain \<and> hasTyposquatting domain
            \<longrightarrow> v_status v = UrlMalicious \<and> v_confidenceScore v = 92)
       \<and> (\<not> isLegitDomain domain \<and> \<not> isKnownPhishingPattern domain \<and> \<not> hasTyposquatting domain
            \<and> hasSuspiciousPath u \<and> 1 / 2 < rnd 0
            \<longrightarrow> v_status v = UrlSuspicious \<and> v_confidenceScore v = 75)
       \<and> (\<not> isLegitDomain domain \<and> \<not> isKnownPhishingPattern domain \<and> \<not> hasTyposquatting domain
            \<and> \<not> (hasSuspiciousPath u \<and> 1 / 2 < rnd 0)
            \<and> (str_includes domain ''-'' \<or> str_includes domain ''secure''
                 \<or> str_includes domain ''login'')
            \<longrightarrow> v_status v = UrlSuspicious \<and> v_confidenceScore v = 68)
       \<and> (\<not> isLegitDomain domain \<and> \<not> isKnownPhishingPattern domain \<and> \<not> hasTyposquatting domain
            \<and> \<not> (hasSuspiciousPath u \<and> 1 / 2 < rnd 0)
            \<and> \<not> (str_includes domain ''-'' \<or> str_includes domain ''secure''
                 \<or> str_includes domain ''login'')
            \<longrightarrow> v_status v = UrlSafe \<and> v_confidenceScore v = 90)"
proof -
  have bounds: "95 \<le> \<lfloor>rnd 0 * 5\<rfloor> + 95 \<and> \<lfloor>rnd 0 * 5\<rfloor> + 95 \<le> 99"
    if "0 \<le> rnd 0" "rnd 0 < 1"
    using floor_draw_bounds [OF that] by simp
  show ?thesis
    unfolding assms using bounds
    by (simp add: ruleChain_def initialVerdict_def)
qed

text \<open>
  C7, amended. In email mode the confidence is a lookup keyed by the final verdict:
  92 for phishing, 75 for suspicious, 88 for safe. In URL mode the branch that runs
  assigns the confidence together with the verdict: the allow-list branch safe with a
  value from 95 to 99, the known phishing pattern malicious with 95, typosquatting
  malicious with 92, the suspicious path (with a draw above one half) suspicious with 75,
  the suspicious domain keyword suspicious with 68, and no branch safe with 90. So a
  malicious result has 95 or 92, a suspicious one 75 or 68, a safe one 90 or a value from
  95 to 99. Neither mode accumulates the confidence from the indicators.
\<close>

theorem confidence_follows_rule:
  "confidence (generateMockAnalysisResult d)
     = (case riskLevel (generateMockAnalysisResult d) of
          Phishing \<Rightarrow> 92 | Suspicious \<Rightarrow> 75 | Safe \<Rightarrow> 88)
   \<and> (0 \<le> rnd 0 \<and> rnd 0 < 1 \<and> analyzeUrl parse rnd input = Checked r
      \<longrightarrow> (case status r of
             UrlMalicious \<Rightarrow> confidenceScore r = 95 \<or> confidenceScore r = 92
           | UrlSuspicious \<Rightarrow> confidenceScore r = 75 \<or> confidenceScore r = 68
           | UrlSafe \<Rightarrow> confidenceScore r = 90
                        \<or> (95 \<le> confidenceScore r \<and> confidenceScore r \<le> 99)))
   \<and> (input' \<noteq> [] \<and> parse (withScheme input') = Some host \<and> domain = toLowerCase host
        \<and> u = withScheme input'
      \<longrightarrow> (\<exists>r'. analyzeUrl parse rnd input' = Checked r'
            \<and> (isLegitDomain domain \<longrightarrow> status r' = UrlSafe
                 \<and> (0 \<le> rnd 0 \<and> rnd 0 < 1
                      \<longrightarrow> 95 \<le> confidenceScore r' \<and> confidenceScore r' \<le> 99))
            \<and> (\<not> isLegitDomain domain \<and> isKnownPhishingPattern domain
                 \<longrightarrow> status r' = UrlMalicious \<and> confidenceScore r' = 95)
            \<and> (\<not> isLegitDomain domain \<and> \<not> isKnownPhishingPattern domain \<and> hasTyposquatting domain
                 \<longrightarrow> status r' = UrlMalicious \<and> confidenceScore r' = 92)
            \<and> (\<not> isLegitDomain domain \<and> \<not> isKnownPhishingPattern domain
                 \<and> \<not> hasTyposquatting domain \<and> hasSuspiciousPath u \<and> 1 / 2 < rnd 0
                 \<longrightarrow> status r' = UrlSuspicious \<and> confidenceScore r' = 75)
            \<and> (\<not> isLegitDomain domain \<and> \<not> isKnownPhishingPattern domain
                 \<and> \<not> hasTyposquatting domain \<and> \<not> (hasSuspiciousPath u \<and> 1 / 2 < rnd 0)
                 \<and> (str_includes domain ''-'' \<or> str_includes domain ''secure''
                      \<or> str_includes domain ''login'')
                 \<longrightarrow> status r' = UrlSuspicious \<and> confidenceScore r' = 68)
            \<and> (\<not> isLegitDomain domain \<and> \<not> isKnownPhishingPattern domain
                 \<and> \<not> hasTyposquatting domain \<and> \<not> (hasSuspiciousPath u \<and> 1 / 2 < rnd 0)
                 \<and> \<not> (str_includes domain ''-'' \<or> str_includes domain ''secure''
                      \<or> str_includes domain ''login'')
                 \<longrightarrow> status r' = UrlSafe \<and> confidenceScore r' = 90)))"
proof -
  have email: "confidence (generateMockAnalysisResult d)
     = (case riskLevel (generateMockAnalysisResult d) of
          Phishing \<Rightarrow> 92 | Suspicious \<Rightarrow> 75 | Safe \<Rightarrow> 88)"
    by (simp add: generateMockAnalysisResult_def Let_def split: RiskLevel.splits)
  have band: "(case status r of
             UrlMalicious \<Rightarrow> confidenceScore r = 95 \<or> confidenceScore r = 92
           | UrlSuspicious \<Rightarrow> confidenceScore r = 75 \<or> confidenceScore r = 68
           | UrlSafe \<Rightarrow> confidenceScore r = 90
                        \<or> (95 \<le> confidenceScore r \<and> confidenceScore r \<le> 99))"
    if "0 \<le> rnd 0" "rnd 0 < 1" "analyzeUrl parse rnd input = Checked r"
  proof -
    from analyzeUrl_Checked [OF that(3)] obtain u host
      where r: "r = buildResult rnd u (ruleChain rnd u (toLowerCase host) initialVerdict)"
      by blast
    show ?thesis
      unfolding r using ruleChain_confidence [of rnd u "toLowerCase host", OF that(1,2)]
      by (simp split: UrlStatus.splits)
  qed
  have by_rule: "\<exists>r'. analyzeUrl parse rnd input' = Checked r'
            \<and> (isLegitDomain domain \<longrightarrow> status r' = UrlSafe
                 \<and> (0 \<le> rnd 0 \<and> rnd 0 < 1
                      \<longrightarrow> 95 \<le> confidenceScore r' \<and> confidenceScore r' \<le> 99))
            \<and> (\<not> isLegitDomain domain \<and> isKnownPhishingPattern domain
                 \<longrightarrow> status r' = UrlMalicious \<and> confidenceScore r' = 95)
            \<and> (\<not> isLegitDomain domain \<and> \<not> isKnownPhishingPattern domain \<and> hasTyposquatting domain
                 \<longrightarrow> status r' = UrlMalicious \<and> confidenceScore r' = 92)
            \<and> (\<not> isLegitDomain domain \<and> \<not> isKnownPhishingPattern domain
                 \<and> \<not> hasTyposquatting domain \<and> hasSuspiciousPath u \<and> 1 / 2 < rnd 0
                 \<longrightarrow> status r' = UrlSuspicious \<and> confidenceScore r' = 75)
            \<and> (\<not> isLegitDomain domain \<and> \<not> isKnownPhishingPattern domain
                 \<and> \<not> hasTyposquatting domain \<and> \<not> (hasSuspiciousPath u \<and> 1 / 2 < rnd 0)
                 \<and> (str_includes domain ''-'' \<or> str_includes domain ''secure''
                      \<or> str_includes domain ''login'')
                 \<longrightarrow> status r' = UrlSuspicious \<and> confidenceScore r' = 68)
            \<and> (\<not> isLegitDomain domain \<and> \<not> isKnownPhishingPattern domain
                 \<and> \<not> hasTyposquatting domain \<and> \<not> (hasSuspiciousPath u \<and> 1 / 2 < rnd 0)
                 \<and> \<not> (str_includes domain ''-'' \<or> str_includes domain ''secure''
                      \<or> str_includes domain ''login'')
                 \<longrightarrow> status r' = UrlSafe \<and> confidenceScore r' = 90)"
    if "input' \<noteq> []" "parse (withScheme input') = Some host" "domain = toLowerCase host"
      "u = withScheme input'"
  proof -
    define v where "v = ruleChain rnd u domain initialVerdict"
    have checked: "analyzeUrl parse rnd input' = Checked (buildResult rnd u v)"
      unfolding v_def that(3,4) using that(1,2) by (rule analyzeUrl_parsed)
    from ruleChain_by_rule [OF v_def] checked show ?thesis
      by (intro exI [of _ "buildResult rnd u v"]) simp
  qed
  from email band by_rule show ?thesis by blast
qed

theorem confidence_follows_rule_witness:
  "(0::real) \<le> lowDraws 0 \<and> lowDraws 0 < 1 \<and> (0::real) \<le> highDraws 0 \<and> highDraws 0 < 1
   \<and> confidence (generateMockAnalysisResult exampleEmail) = 92
   \<and> (\<exists>r. analyzeUrl sampleHostnames highDraws ''google.com'' = Checked r
          \<and> status r = UrlSafe \<and> 95 \<le> confidenceScore r \<and> confidenceScore r \<le> 99)
   \<and> (\<exists>r. analyzeUrl sampleHostnames lowDraws ''secure-verify.com'' = Checked r
          \<and> status r = UrlMalicious \<and> confidenceScore r = 95)
   \<and> (\<exists>r. analyzeUrl sampleHostnames lowDraws ''g00gle.com'' = Checked r
          \<and> status r = UrlMalicious \<and> confidenceScore r = 92)
   \<and> (\<exists>r. analyzeUrl sampleHostnames highDraws ''example.com/verify'' = Checked r
          \<and> status r = UrlSuspicious \<and> confidenceScore r = 75)
   \<and> (\<exists>r. analyzeUrl sampleHostnames lowDraws ''my-site.com'' = Checked r
          \<and> status r = UrlSuspicious \<and> confidenceScore r = 68)
   \<and> (\<exists>r. analyzeUrl sampleHostnames lowDraws ''example.com/verify'' = Checked r
          \<and> status r = UrlSafe \<and> confidenceScore r = 90)"
proof -
  have draws: "(0::real) \<le> lowDraws 0 \<and> lowDraws 0 < 1
      \<and> (0::real) \<le> highDraws 0 \<and> highDraws 0 < 1"
    by (simp add: lowDraws_def highDraws_def)
  have level: "riskLevel (generateMockAnalysisResult exampleEmail) = Phishing"
    by (simp add: exampleEmail_def email_defs string_defs)
  have email: "confidence (generateMockAnalysisResult exampleEmail) = 92"
    using confidence_follows_rule [of exampleEmail] level by simp
  have allow: "\<exists>r. analyzeUrl sampleHostnames highDraws ''google.com'' = Checked r
      \<and> status r = UrlSafe \<and> 95 \<le> confidenceScore r \<and> confidenceScore r \<le> 99"
    using confidence_follows_rule [where input' = "''google.com''" and rnd = highDraws
        and parse = sampleHostnames and host = "''google.com''"
        and domain = "''google.com''" and u = "''https://google.com''"]
    by (simp add: string_defs url_defs highDraws_def)
  have known: "\<exists>r. analyzeUrl sampleHostnames lowDraws ''secure-verify.com'' = Checked r
      \<and> status r = UrlMalicious \<and> confidenceScore r = 95"
    using confidence_follows_rule [where input' = "''secure-verify.com''" and rnd = lowDraws
        and parse = sampleHostnames and host = "''secure-verify.com''"
        and domain = "''secure-verify.com''" and u = "''https://secure-verify.com''"]
    by (simp add: string_defs url_defs lowDraws_def)
  have typo: "\<exists>r. analyzeUrl sampleHostnames lowDraws ''g00gle.com'' = Checked r
      \<and> status r = UrlMalicious \<and> confidenceScore r = 92"
    using confidence_follows_rule [where input' = "''g00gle.com''" and rnd = lowDraws
        and parse = sampleHostnames and host = "''g00gle.com''"
        and domain = "''g00gle.com''" and u = "''https://g00gle.com''"]
    by (simp add: string_defs url_defs lowDraws_def)
  have path: "\<exists>r. analyzeUrl sampleHostnames highDraws ''example.com/verify'' = Checked r
      \<and> status r = UrlSuspicious \<and> confidenceScore r = 75"
    using confidence_follows_rule [where input' = "''example.com/verify''" and rnd = highDraws
        and parse = sampleHostnames and host = "''example.com''"
        and domain = "''example.com''" and u = "''https://example.com/verify''"]
    by (simp add: string_defs url_defs highDraws_def)
  have keyword: "\<exists>r. analyzeUrl sampleHostnames lowDraws ''my-site.com'' = Checked r
      \<and> status r = UrlSuspicious \<and> confidenceScore r = 68"
    using confidence_follows_rule [where input' = "''my-site.com''" and rnd = lowDraws
        and parse = sampleHostnames and host = "''my-site.com''"
        and domain = "''my-site.com''" and u = "''https://my-site.com''"]
    by (simp add: string_defs url_defs lowDraws_def)
  have default: "\<exists>r. analyzeUrl sampleHostnames lowDraws ''example.com/verify'' = Checked r
      \<and> status r = UrlSafe \<and> confidenceScore r = 90"
    using confidence_follows_rule [where input' = "''example.com/verify''" and rnd = lowDraws
        and parse = sampleHostnames and host = "''example.com''"
        and domain = "''example.com''" and u = "''https://example.com/verify''"]
    by (simp add: string_defs url_defs lowDraws_def)
  from draws email allow known typo path keyword default show ?thesis by blast
qed

lemma exampleEmail_result:
  "generateMockAnalysisResult exampleEmail =
     \<lparr>riskLevel = Phishing,
      indicators = [''Uses urgent language to create pressure'',
                    ''Requests sensitive personal information''],
      suspiciousLinks =
        [\<lparr>link_url = ''https://paypa1.com/verify'',
          reason = ''URL contains suspicious keywords related to authentication''\<rparr>,
         \<lparr>link_url = ''https://paypa1.com/verify'',
          reason = ''Possible typosquatting detected (domain mimics popular brand)''\<rparr>],
      confidence = 92,
      analysis = ''This email contains multiple elements commonly found in phishing attempts, including urgent language, requests for sensitive information, and suspicious links.'',
      recommendedAction = ''Block this email and alert the recipient not to interact with it.''\<rparr>"
  by (simp add: exampleEmail_def email_defs string_defs)

text \<open>
  C8 at the input on which the code departs from it, the email of the example scenario.
  The verdict is phishing and the link is recorded twice, as the claim says, and the
  indicators are the one for urgent language and the one for a request of sensitive
  information; no indicator mentions sender spoofing. The sender rule looks for the
  names \<^verbatim>\<open>paypal\<close>, \<^verbatim>\<open>amazon\<close> and \<^verbatim>\<open>apple\<close> as they are spelled, and the sender
  has \<^verbatim>\<open>paypa1\<close>; the link rule of the same function matches \<^verbatim>\<open>paypa1\<close>, and so
  does the pattern of the URL checker.
\<close>

theorem example_email_lacks_spoofing_indicator:
  "riskLevel (generateMockAnalysisResult
      \<lparr>sender = ''support@paypa1-alerts.com'', subject = ''Urgent: verify your account'',
       content = ''Please login at https://paypa1.com/verify''\<rparr>) = Phishing
   \<and> suspiciousLinks (generateMockAnalysisResult
      \<lparr>sender = ''support@paypa1-alerts.com'', subject = ''Urgent: verify your account'',
       content = ''Please login at https://paypa1.com/verify''\<rparr>)
     = [\<lparr>link_url = ''https://paypa1.com/verify'',
         reason = ''URL contains suspicious keywords related to authentication''\<rparr>,
        \<lparr>link_url = ''https://paypa1.com/verify'',
         reason = ''Possible typosquatting detected (domain mimics popular brand)''\<rparr>]
   \<and> indicators (generateMockAnalysisResult
      \<lparr>sender = ''support@paypa1-alerts.com'', subject = ''Urgent: verify your account'',
       content = ''Please login at https://paypa1.com/verify''\<rparr>)
     = [''Uses urgent language to create pressure'', ''Requests sensitive personal information'']
   \<and> mentions ''urgent'' (indicators (generateMockAnalysisResult
      \<lparr>sender = ''support@paypa1-alerts.com'', subject = ''Urgent: verify your account'',
       content = ''Please login at https://paypa1.com/verify''\<rparr>))
   \<and> \<not> mentions ''spoofing'' (indicators (generateMockAnalysisResult
      \<lparr>sender = ''support@paypa1-alerts.com'', subject = ''Urgent: verify your account'',
       content = ''Please login at https://paypa1.com/verify''\<rparr>))
   \<and> \<not> mentions ''Sender'' (indicators (generateMockAnalysisResult
      \<lparr>sender = ''support@paypa1-alerts.com'', subject = ''Urgent: verify your account'',
       content = ''Please login at https://paypa1.com/verify''\<rparr>))
   \<and> \<not> str_includes (toLowerCase ''support@paypa1-alerts.com'') ''paypal''
   \<and> str_includes (toLowerCase ''support@paypa1-alerts.com'') ''paypa1''
   \<and> hasTyposquatting ''paypa1-alerts.com''"
  using exampleEmail_result
  by (simp add: exampleEmail_def mentions_def string_defs hasTyposquatting_def
      typosquattingRegex_def regex_test_def)

text \<open>
  What the two keyword rules do guarantee: an urgency keyword in the content or in the
  subject, or a sensitive-data keyword in the content, keeps the verdict off safe.
\<close>

lemma keyword_escalates:
  assumes "list_ex (\<lambda>word. str_includes (toLowerCase (content d)) word
              \<or> str_includes (toLowerCase (subject d)) word) urgentWords
           \<or> list_ex (\<lambda>word. str_includes (toLowerCase (content d)) word) sensitiveWords"
  shows "riskLevel (generateMockAnalysisResult d) \<noteq> Safe"
proof -
  define c where "c = toLowerCase (content d)"
  define sj where "sj = toLowerCase (subject d)"
  define sd where "sd = toLowerCase (sender d)"
  define links where "links = concat (map linkRules (matchAllUrls c))"
  define s1 where "s1 = urgentRule c sj initialScan"
  define s2 where "s2 = sensitiveRule c s1"
  define s3 where "s3 = spoofingRule sd s2"
  have rules: "scanRules d = [urgentRule c sj, sensitiveRule c, spoofingRule sd] @ links"
    by (simp add: scanRules_def Let_def c_def sj_def sd_def links_def)
  have final: "scanned d = applyRules s3 links"
    by (simp add: scanned_def rules s1_def s2_def s3_def)
  have t1: "riskTier (riskLevel s1) \<le> 1"
    unfolding s1_def by (rule urgentRule_initial)
  have "1 \<le> riskTier (riskLevel s2)"
    using assms t1 sensitiveRule_low [OF t1, of c]
    by (auto simp: s2_def s1_def c_def sj_def urgentRule_def sensitiveRule_def riskTier_def)
  also have "\<dots> \<le> riskTier (riskLevel s3)"
    unfolding s3_def by (rule spoofingRule_raises)
  also have "\<dots> \<le> riskTier (riskLevel (applyRules s3 links))"
  proof -
    have raise: "\<forall>r\<in>set links. \<forall>s. riskTier (riskLevel s) \<le> riskTier (riskLevel (r s))"
      unfolding links_def by (rule linkRules_raise)
    have "last (statesOf s3 links) \<in> set (statesOf s3 links)"
      by (cases links) simp_all
    with statesOf_lower_bound [OF raise, of s3] show ?thesis
      by (simp add: last_statesOf)
  qed
  finally have "1 \<le> riskTier (riskLevel (scanned d))"
    by (simp add: final)
  then show ?thesis
    by (auto simp: riskLevel_generateMockAnalysisResult riskTier_def)
qed

text \<open>
  C9 at the input on which the code departs from it: the subject \<^verbatim>\<open>Your password\<close>
  contains a sensitive-data keyword, the content and the sender match nothing, and the
  verdict is safe with no indicator. The rule for urgency keywords reads the content and
  the subject, the rule for sensitive-data keywords the content alone.
\<close>

theorem sensitive_subject_stays_safe:
  "list_ex (str_includes (toLowerCase ''Your password'')) sensitiveWords
   \<and> riskLevel (generateMockAnalysisResult
        \<lparr>sender = ''hr@example.org'', subject = ''Your password'', content = ''hello''\<rparr>)
      = Safe
   \<and> indicators (generateMockAnalysisResult
        \<lparr>sender = ''hr@example.org'', subject = ''Your password'', content = ''hello''\<rparr>)
      = []"
  by (simp add: email_defs string_defs)

text \<open>
  The URL checker is not a function of its input and of the parser alone: the draw decides
  whether a suspicious path makes \<^verbatim>\<open>example.com/verify\<close> suspicious, and which
  confidence \<^verbatim>\<open>google.com\<close> gets.
\<close>

lemma url_checker_depends_on_draws:
  "(parse ''https://example.com/verify'' = Some ''example.com''
      \<longrightarrow> outcomeStatus (analyzeUrl parse lowDraws ''example.com/verify'') = Some UrlSafe
          \<and> outcomeStatus (analyzeUrl parse highDraws ''example.com/verify'')
              = Some UrlSuspicious)
   \<and> (parse ''https://google.com'' = Some ''google.com''
      \<longrightarrow> outcomeConfidence (analyzeUrl parse lowDraws ''google.com'') = Some 95
          \<and> outcomeConfidence (analyzeUrl parse highDraws ''google.com'') = Some 98)"
proof -
  have path_scheme: "withScheme ''example.com/verify'' = ''https://example.com/verify''"
    by (simp add: withScheme_def)
  have path: "outcomeStatus (analyzeUrl parse lowDraws ''example.com/verify'') = Some UrlSafe
      \<and> outcomeStatus (analyzeUrl parse highDraws ''example.com/verify'')
          = Some UrlSuspicious"
    if "parse ''https://example.com/verify'' = Some ''example.com''"
    using that path_scheme
    by (simp add: analyzeUrl_parsed [of _ parse "''example.com''"] string_defs
        isLegitDomain_def knownLegitDomains_def hasTyposquatting_def typosquattingRegex_def
        regex_test_def isKnownPhishingPattern_def hasSuspiciousPath_def ruleChain_def
        initialVerdict_def lowDraws_def highDraws_def)
  have legit_scheme: "withScheme ''google.com'' = ''https://google.com''"
    by (simp add: withScheme_def)
  have jitter: "outcomeConfidence (analyzeUrl parse lowDraws ''google.com'') = Some 95
      \<and> outcomeConfidence (analyzeUrl parse highDraws ''google.com'') = Some 98"
    if "parse ''https://google.com'' = Some ''google.com''"
    using that legit_scheme
    by (simp add: analyzeUrl_parsed [of _ parse "''google.com''"] string_defs
        isLegitDomain_def knownLegitDomains_def ruleChain_def
        initialVerdict_def lowDraws_def highDraws_def)
  from path jitter show ?thesis by simp
qed

end
